theory Spec2Isabelle
  imports Main "HOL-Library.Multiset"
begin

section \<open>Errors\<close>

text \<open>
  The failures of the JavaScript source as values: a failed \<open>goog.asserts\<close> assertion,
  a \<open>throw\<close> of a message, and the \<open>TypeError\<close> raised by a property access on
  \<open>null\<close> or \<open>undefined\<close>.
\<close>

datatype error = AssertionError string | Thrown string | TypeError string

text \<open>
  Names are those of the source. A trailing underscore, which marks a private member in
  the source, is written \<open>_p\<close> (\<open>childBlocks_\<close> is \<open>childBlocks_p\<close>).
\<close>

section \<open>Reordering the inputs of a block\<close>

text \<open>
  \<open>Array.prototype.splice\<close> as the source uses it, on array positions:
  \<open>xs.splice(i, 1)\<close> removes the element at position \<open>i\<close> (nothing when \<open>i\<close> is past the
  end) and \<open>xs.splice(i, 0, x)\<close> inserts \<open>x\<close> before position \<open>i\<close> (at the end when \<open>i\<close> is
  past the end).
\<close>

definition splice_remove :: "nat \<Rightarrow> 'a list \<Rightarrow> 'a list" where
  "splice_remove i xs = take i xs @ drop (Suc i) xs"

definition splice_insert :: "nat \<Rightarrow> 'a \<Rightarrow> 'a list \<Rightarrow> 'a list" where
  "splice_insert i x xs = take i xs @ x # drop i xs"

text \<open>
  \<open>Blockly.Block.prototype.moveNumberedInputBefore\<close> on the input list of the block.
  The three assertions come first, in the order of the source; indices are array
  positions.
\<close>

definition moveNumberedInputBefore :: "'a list \<Rightarrow> nat \<Rightarrow> nat \<Rightarrow> error + 'a list" where
  "moveNumberedInputBefore inputList inputIndex refIndex =
    (if inputIndex = refIndex then Inl (AssertionError ''Can't move input to itself.'')
     else if \<not> inputIndex < length inputList then Inl (AssertionError ''Input index out of bounds.'')
     else if \<not> refIndex \<le> length inputList then Inl (AssertionError ''Reference input out of bounds.'')
     else
       let input = inputList ! inputIndex;
           inputList1 = splice_remove inputIndex inputList;
           refIndex1 = (if inputIndex < refIndex then refIndex - 1 else refIndex)
       in Inr (splice_insert refIndex1 input inputList1))"

text \<open>
  An input as \<open>moveInputBefore\<close> sees it: its name, and the rest of the object (field
  row, connection with its target and type expression) carried along untouched in
  \<open>payload\<close>.
\<close>

record 'p named_input =
  name :: string
  payload :: 'p

text \<open>JavaScript truthiness of the nullable string \<open>refName\<close>: \<open>null\<close> and the empty string are falsy.\<close>

definition truthy :: "string option \<Rightarrow> bool" where
  "truthy r = (case r of None \<Rightarrow> False | Some s \<Rightarrow> s \<noteq> [])"

text \<open>
  The search loop of \<open>moveInputBefore\<close>; \<open>-1\<close> stands for "not found" as in the source,
  and a \<open>break\<close> is a return of the current pair.
\<close>

fun findBoth :: "string \<Rightarrow> string option \<Rightarrow> 'p named_input list \<Rightarrow> nat \<Rightarrow> int \<times> int \<Rightarrow> int \<times> int" where
  "findBoth nm refName [] i (inputIndex, refIndex) = (inputIndex, refIndex)"
| "findBoth nm refName (input # rest) i (inputIndex, refIndex) =
    (if name input = nm then
       (if refIndex \<noteq> -1 then (int i, refIndex)
        else findBoth nm refName rest (Suc i) (int i, refIndex))
     else if truthy refName \<and> Some (name input) = refName then
       (if inputIndex \<noteq> -1 then (inputIndex, int i)
        else findBoth nm refName rest (Suc i) (inputIndex, int i))
     else findBoth nm refName rest (Suc i) (inputIndex, refIndex))"

definition moveInputBefore :: "'p named_input list \<Rightarrow> string \<Rightarrow> string option \<Rightarrow> error + 'p named_input list" where
  "moveInputBefore inputList nm refName =
    (if Some nm = refName then Inr inputList
     else
       let (inputIndex, refIndex) =
             findBoth nm refName inputList 0
               (-1, if truthy refName then -1 else int (length inputList))
       in if inputIndex = -1 then Inl (AssertionError ''Named input not found.'')
          else if refIndex = -1 then Inl (AssertionError ''Reference input not found.'')
          else moveNumberedInputBefore inputList (nat inputIndex) (nat refIndex))"

section \<open>Type expressions and the typed block kinds\<close>

text \<open>
  A type expression as the block initialisers build it: the nullary constructors, the
  list, pair and function constructors with their children, and a type variable. A type
  variable is an object with identity (two sockets initialised with the same variable
  share it); the identity is its name. Constructor nodes are never mutated by the code
  below and are compared structurally.
\<close>

datatype texpr =
    TBOOL | TINT | TFLOAT
  | TLIST texpr
  | TPAIR texpr texpr
  | TFUN texpr texpr
  | TVAR string

text \<open>
  Property reads on a type expression object. Reading \<open>element_type\<close>, \<open>first_type\<close>, ... on
  an object that does not have the property gives \<open>undefined\<close> in JavaScript: \<open>None\<close> here.
\<close>

fun element_type :: "texpr \<Rightarrow> texpr option" where
  "element_type (TLIST t) = Some t"
| "element_type _ = None"

fun first_type :: "texpr \<Rightarrow> texpr option" where
  "first_type (TPAIR a b) = Some a"
| "first_type _ = None"

fun second_type :: "texpr \<Rightarrow> texpr option" where
  "second_type (TPAIR a b) = Some b"
| "second_type _ = None"

fun arg_type :: "texpr \<Rightarrow> texpr option" where
  "arg_type (TFUN a r) = Some a"
| "arg_type _ = None"

fun return_type :: "texpr \<Rightarrow> texpr option" where
  "return_type (TFUN a r) = Some r"
| "return_type _ = None"

fun tvars :: "texpr \<Rightarrow> string set" where
  "tvars (TVAR v) = {v}"
| "tvars (TLIST t) = tvars t"
| "tvars (TPAIR a b) = tvars a \<union> tvars b"
| "tvars (TFUN a r) = tvars a \<union> tvars r"
| "tvars _ = {}"

datatype kind =
    logic_boolean_typed | logic_compare_typed | logic_ternary_typed
  | int_typed | int_arithmetic_typed | float_typed | float_arithmetic_typed
  | lists_create_with_typed
  | pair_create_typed | pair_first_typed | pair_second_typed
  | lambda_typed | lambda_app_typed | match_typed
  | variables_get_typed | let_typed

text \<open>
  The sockets of one typed block: the type expression of its output connection and its
  inputs. An input has a connection (with an optional type expression) unless it is a
  dummy input.
\<close>

record socket_input =
  input_name :: string
  input_connection :: "texpr option option"

record typed_block =
  block_kind :: kind
  output_typeExpr :: "texpr option"
  socket_inputs :: "socket_input list"
  itemCount_p :: nat

definition valueInput :: "string \<Rightarrow> texpr \<Rightarrow> socket_input" where
  "valueInput n t = \<lparr>input_name = n, input_connection = Some (Some t)\<rparr>"

definition dummyInput :: "string \<Rightarrow> socket_input" where
  "dummyInput n = \<lparr>input_name = n, input_connection = None\<rparr>"

text \<open>The decimal numeral of a number, for the input names \<open>'ADD' + x\<close>.\<close>

fun decimal :: "nat \<Rightarrow> string" where
  "decimal n = (if 10 \<le> n then decimal (n div 10) else []) @ [''0123456789'' ! (n mod 10)]"

declare decimal.simps [simp del]

text \<open>
  The shape each \<open>init\<close> gives its block. \<open>A\<close> and \<open>B\<close> are the names of the type variables
  that \<open>generateTypeVar()\<close> returned. For \<open>lists_create_with_typed\<close> the number of items is
  a parameter: \<open>init\<close> builds three, \<open>domToMutation\<close> and \<open>compose\<close> rebuild \<open>itemCount_\<close> of
  them, all on the element type of the output. An unnamed dummy input has the empty name.
\<close>

definition init_block :: "kind \<Rightarrow> string \<Rightarrow> string \<Rightarrow> nat \<Rightarrow> typed_block" where
  "init_block k A B n = (case k of
      logic_boolean_typed \<Rightarrow>
        \<lparr>block_kind = k, output_typeExpr = Some TBOOL, socket_inputs = [dummyInput []],
         itemCount_p = 0\<rparr>
    | logic_compare_typed \<Rightarrow>
        \<lparr>block_kind = k, output_typeExpr = Some TBOOL,
         socket_inputs = [valueInput ''A'' (TVAR A), valueInput ''B'' (TVAR A)], itemCount_p = 0\<rparr>
    | logic_ternary_typed \<Rightarrow>
        \<lparr>block_kind = k, output_typeExpr = Some (TVAR A),
         socket_inputs = [valueInput ''IF'' TBOOL, valueInput ''THEN'' (TVAR A),
           valueInput ''ELSE'' (TVAR A)], itemCount_p = 0\<rparr>
    | int_typed \<Rightarrow>
        \<lparr>block_kind = k, output_typeExpr = Some TINT, socket_inputs = [dummyInput []],
         itemCount_p = 0\<rparr>
    | int_arithmetic_typed \<Rightarrow>
        \<lparr>block_kind = k, output_typeExpr = Some TINT,
         socket_inputs = [valueInput ''A'' TINT, valueInput ''B'' TINT], itemCount_p = 0\<rparr>
    | float_typed \<Rightarrow>
        \<lparr>block_kind = k, output_typeExpr = Some TFLOAT, socket_inputs = [dummyInput []],
         itemCount_p = 0\<rparr>
    | float_arithmetic_typed \<Rightarrow>
        \<lparr>block_kind = k, output_typeExpr = Some TFLOAT,
         socket_inputs = [valueInput ''A'' TFLOAT, valueInput ''B'' TFLOAT], itemCount_p = 0\<rparr>
    | lists_create_with_typed \<Rightarrow>
        \<lparr>block_kind = k, output_typeExpr = Some (TLIST (TVAR A)),
         socket_inputs = dummyInput ''LPAREN''
           # map (\<lambda>x. valueInput (''ADD'' @ decimal x) (TVAR A)) [0..<n]
           @ [dummyInput ''RPAREN''],
         itemCount_p = n\<rparr>
    | pair_create_typed \<Rightarrow>
        \<lparr>block_kind = k, output_typeExpr = Some (TPAIR (TVAR A) (TVAR B)),
         socket_inputs = [valueInput ''FIRST'' (TVAR A), valueInput ''SECOND'' (TVAR B),
           dummyInput []], itemCount_p = 0\<rparr>
    | pair_first_typed \<Rightarrow>
        \<lparr>block_kind = k, output_typeExpr = Some (TVAR A),
         socket_inputs = [valueInput ''FIRST'' (TPAIR (TVAR A) (TVAR B)), dummyInput []],
         itemCount_p = 0\<rparr>
    | pair_second_typed \<Rightarrow>
        \<lparr>block_kind = k, output_typeExpr = Some (TVAR B),
         socket_inputs = [valueInput ''SECOND'' (TPAIR (TVAR A) (TVAR B)), dummyInput []],
         itemCount_p = 0\<rparr>
    | lambda_typed \<Rightarrow>
        \<lparr>block_kind = k, output_typeExpr = Some (TFUN (TVAR A) (TVAR B)),
         socket_inputs = [dummyInput [], valueInput ''RETURN'' (TVAR B)], itemCount_p = 0\<rparr>
    | lambda_app_typed \<Rightarrow>
        \<lparr>block_kind = k, output_typeExpr = Some (TVAR B),
         socket_inputs = [valueInput ''FUN'' (TFUN (TVAR A) (TVAR B)), valueInput ''ARG'' (TVAR A)],
         itemCount_p = 0\<rparr>
    | match_typed \<Rightarrow>
        \<lparr>block_kind = k, output_typeExpr = Some (TVAR B),
         socket_inputs = [dummyInput [], valueInput ''INPUT'' (TVAR A), dummyInput [],
           valueInput ''PATTERN1'' (TVAR A), valueInput ''OUTPUT1'' (TVAR B),
           valueInput ''PATTERN2'' (TVAR A), valueInput ''OUTPUT2'' (TVAR B)],
         itemCount_p = 0\<rparr>
    | variables_get_typed \<Rightarrow>
        \<lparr>block_kind = k, output_typeExpr = Some (TVAR A), socket_inputs = [dummyInput []],
         itemCount_p = 0\<rparr>
    | let_typed \<Rightarrow>
        \<lparr>block_kind = k, output_typeExpr = Some (TVAR B),
         socket_inputs = [dummyInput ''VARIABLE'', valueInput ''EXP1'' (TVAR A),
           valueInput ''EXP2'' (TVAR B)], itemCount_p = 0\<rparr>)"

text \<open>The type expressions on the sockets of a block, and the type variables in them.\<close>

definition socket_typeExprs :: "typed_block \<Rightarrow> texpr list" where
  "socket_typeExprs b =
     (case output_typeExpr b of None \<Rightarrow> [] | Some t \<Rightarrow> [t])
     @ concat (map (\<lambda>i. case input_connection i of Some (Some t) \<Rightarrow> [t] | _ \<Rightarrow> [])
         (socket_inputs b))"

definition socket_vars :: "typed_block \<Rightarrow> string set" where
  "socket_vars b = \<Union> (tvars ` set (socket_typeExprs b))"

section \<open>clearTypes\<close>

text \<open>
  What one call of a block's \<open>clearTypes\<close> does, in order: \<open>Clear t\<close> is a call
  \<open>t.clear()\<close> on one of the block's own type expressions, \<open>CallClearTypes n\<close> is
  \<open>this.callClearTypes_(n)\<close>, which instructs the block connected to input \<open>n\<close> (if any,
  and if it has a \<open>clearTypes\<close>) to clear its types.
\<close>

datatype clear_action = Clear texpr | CallClearTypes string

fun getSocketInput :: "socket_input list \<Rightarrow> string \<Rightarrow> socket_input option" where
  "getSocketInput [] n = None"
| "getSocketInput (i # rest) n = (if input_name i = n then Some i else getSocketInput rest n)"

text \<open>\<open>this.getInput(n).connection.typeExpr\<close>; \<open>None\<close> when any link of the chain is missing.\<close>

definition input_typeExpr :: "typed_block \<Rightarrow> string \<Rightarrow> texpr option" where
  "input_typeExpr b n = (case getSocketInput (socket_inputs b) n of
      None \<Rightarrow> None
    | Some i \<Rightarrow> (case input_connection i of None \<Rightarrow> None | Some te \<Rightarrow> te))"

text \<open>\<open>e.clear()\<close> on the result of a property chain: a \<open>TypeError\<close> when the chain gave nothing.\<close>

definition clear_call :: "texpr option \<Rightarrow> error + clear_action list" where
  "clear_call e = (case e of
      None \<Rightarrow> Inl (TypeError ''Cannot read property of undefined'')
    | Some t \<Rightarrow> Inr [Clear t])"

text \<open>\<open>Blockly.Block.prototype.callClearTypes_\<close>, up to the call into the child.\<close>

definition callClearTypes_p :: "typed_block \<Rightarrow> string \<Rightarrow> error + clear_action list" where
  "callClearTypes_p b n = (case getSocketInput (socket_inputs b) n of
      None \<Rightarrow> Inl (AssertionError ''Invalid input name'')
    | Some i \<Rightarrow> (case input_connection i of
          None \<Rightarrow> Inl (TypeError ''Cannot read property targetBlock of null'')
        | Some te \<Rightarrow> Inr [CallClearTypes n]))"

text \<open>Statements in sequence; the first failure ends the method.\<close>

fun statements :: "(error + 'a list) list \<Rightarrow> error + 'a list" where
  "statements [] = Inr []"
| "statements (Inl e # rest) = Inl e"
| "statements (Inr xs # rest) = (case statements rest of Inl e \<Rightarrow> Inl e | Inr ys \<Rightarrow> Inr (xs @ ys))"

definition has_clearTypes :: "kind \<Rightarrow> bool" where
  "has_clearTypes k = (k \<noteq> logic_boolean_typed \<and> k \<noteq> int_typed \<and> k \<noteq> float_typed)"

text \<open>The \<open>clearTypes\<close> method of each block kind, statement by statement.\<close>

definition clearTypes :: "typed_block \<Rightarrow> error + clear_action list" where
  "clearTypes b = (case block_kind b of
      logic_compare_typed \<Rightarrow> statements
        [clear_call (input_typeExpr b ''A''),
         callClearTypes_p b ''A'', callClearTypes_p b ''B'']
    | logic_ternary_typed \<Rightarrow> statements
        [clear_call (output_typeExpr b),
         callClearTypes_p b ''IF'', callClearTypes_p b ''THEN'', callClearTypes_p b ''ELSE'']
    | int_arithmetic_typed \<Rightarrow> statements
        [callClearTypes_p b ''A'', callClearTypes_p b ''B'']
    | float_arithmetic_typed \<Rightarrow> statements
        [callClearTypes_p b ''A'', callClearTypes_p b ''B'']
    | lists_create_with_typed \<Rightarrow> statements
        (clear_call (Option.bind (output_typeExpr b) element_type)
         # map (\<lambda>x. callClearTypes_p b (''ADD'' @ decimal x)) [0..<itemCount_p b])
    | pair_create_typed \<Rightarrow> statements
        [clear_call (Option.bind (output_typeExpr b) first_type),
         clear_call (Option.bind (output_typeExpr b) second_type),
         callClearTypes_p b ''FIRST'', callClearTypes_p b ''SECOND'']
    | pair_first_typed \<Rightarrow> statements
        [clear_call (output_typeExpr b), callClearTypes_p b ''FIRST'']
    | pair_second_typed \<Rightarrow> statements
        [clear_call (output_typeExpr b), callClearTypes_p b ''SECOND'']
    | lambda_typed \<Rightarrow> statements
        [clear_call (Option.bind (output_typeExpr b) arg_type),
         clear_call (Option.bind (output_typeExpr b) return_type),
         callClearTypes_p b ''RETURN'']
    | lambda_app_typed \<Rightarrow> statements
        [clear_call (Option.bind (input_typeExpr b ''FUN'') arg_type),
         clear_call (Option.bind (input_typeExpr b ''FUN'') return_type),
         callClearTypes_p b ''FUN'', callClearTypes_p b ''ARG'']
    | match_typed \<Rightarrow> statements
        [clear_call (output_typeExpr b),
         clear_call (input_typeExpr b ''INPUT''),
         callClearTypes_p b ''INPUT'', callClearTypes_p b ''PATTERN1'', callClearTypes_p b ''PATTERN2'',
         callClearTypes_p b ''OUTPUT1'', callClearTypes_p b ''OUTPUT2'']
    | variables_get_typed \<Rightarrow> statements
        [clear_call (output_typeExpr b)]
    | let_typed \<Rightarrow> statements
        [clear_call (input_typeExpr b ''EXP1''),
         clear_call (input_typeExpr b ''EXP2''),
         callClearTypes_p b ''EXP1'', callClearTypes_p b ''EXP2'']
    | _ \<Rightarrow> Inl (TypeError ''clearTypes is not a function''))"

fun is_Clear :: "clear_action \<Rightarrow> bool" where
  "is_Clear (Clear t) = True"
| "is_Clear (CallClearTypes n) = False"

text \<open>Every \<open>clear\<close> call comes before every instruction to a child.\<close>

definition clears_first :: "clear_action list \<Rightarrow> bool" where
  "clears_first acts = list_all (\<lambda>a. \<not> is_Clear a) (dropWhile is_Clear acts)"

section \<open>The block graph\<close>

text \<open>
  Blocks, connections, fields and bound-variable values are objects; the state maps
  their identities to their current fields. No operation below allocates, so the
  maps are total. A block's \<open>workspace\<close> is \<open>None\<close> once it has been disposed.

  Left out: event firing (\<open>Blockly.Events\<close>), the \<open>onchange\<close> listener and
  \<open>Blockly.selected\<close>, which belong to the notification and UI layers.
\<close>

type_synonym block_id = nat
type_synonym conn_id = nat
type_synonym field_id = nat
type_synonym value_id = nat

datatype conn_type = INPUT_VALUE | OUTPUT_VALUE | NEXT_STATEMENT | PREVIOUS_STATEMENT

record connection =
  sourceBlock_p :: block_id
  ctype :: conn_type
  check_p :: "string list option"
  targetConnection :: "conn_id option"
  registered :: bool

record input =
  iname :: string
  fieldRow :: "field_id list"
  iconnection :: "conn_id option"

record block =
  workspace :: "unit option"
  outputConnection :: "conn_id option"
  previousConnection :: "conn_id option"
  nextConnection :: "conn_id option"
  inputList :: "input list"
  typedValue :: "(string \<times> value_id) list"
  parentBlock_p :: "block_id option"
  childBlocks_p :: "block_id list"

record state =
  blocks :: "block_id \<Rightarrow> block"
  conns :: "conn_id \<Rightarrow> connection"
  topBlocks :: "block_id list"
  blockDB :: "block_id set"
  disposedFields :: "field_id set"
  disposedValues :: "value_id set"

text \<open>
  The outcome of an operation: it returns in a new state, it throws in the state reached
  at the throw, or the model ran out of fuel (only the recursion of \<open>dispose\<close> uses fuel).
\<close>

datatype outcome = Ok state | Fail error state | OutOfFuel

fun andThen :: "outcome \<Rightarrow> (state \<Rightarrow> outcome) \<Rightarrow> outcome" where
  "andThen (Ok s) f = f s"
| "andThen (Fail e s) f = Fail e s"
| "andThen OutOfFuel f = OutOfFuel"

definition upd_block :: "state \<Rightarrow> block_id \<Rightarrow> (block \<Rightarrow> block) \<Rightarrow> state" where
  "upd_block s b f = s\<lparr>blocks := (blocks s)(b := f (blocks s b))\<rparr>"

definition upd_conn :: "state \<Rightarrow> conn_id \<Rightarrow> (connection \<Rightarrow> connection) \<Rightarrow> state" where
  "upd_conn s c f = s\<lparr>conns := (conns s)(c := f (conns s c))\<rparr>"

subsection \<open>Workspace\<close>

text \<open>
  Modelled from the spec: the Workspace is not in the source; the spec gives it
  "top-level block set membership (\<open>addTopBlock\<close>/\<open>removeTopBlock\<close>)" and the
  identity table \<open>blockDB_\<close>.
\<close>

definition addTopBlock :: "state \<Rightarrow> block_id \<Rightarrow> state" where
  "addTopBlock s b = s\<lparr>topBlocks := topBlocks s @ [b]\<rparr>"

definition removeTopBlock :: "state \<Rightarrow> block_id \<Rightarrow> state" where
  "removeTopBlock s b = s\<lparr>topBlocks := remove1 b (topBlocks s)\<rparr>"

subsection \<open>Block.setParent\<close>

definition isConnected :: "state \<Rightarrow> conn_id \<Rightarrow> bool" where
  "isConnected s c = (targetConnection (conns s c) \<noteq> None)"

text \<open>\<open>x && x.isConnected()\<close> on a nullable connection.\<close>

definition connectedOpt :: "state \<Rightarrow> conn_id option \<Rightarrow> bool" where
  "connectedOpt s co = (case co of None \<Rightarrow> False | Some c \<Rightarrow> isConnected s c)"

text \<open>
  \<open>Blockly.Block.prototype.setParent\<close>. \<open>goog.array.remove\<close> removes the first occurrence.
  \<open>this.workspace.removeTopBlock\<close> and \<open>addTopBlock\<close> are calls on \<open>this.workspace\<close>, a
  \<open>TypeError\<close> when it is \<open>null\<close>.
\<close>

definition setParent_link :: "state \<Rightarrow> block_id \<Rightarrow> block_id option \<Rightarrow> outcome" where
  "setParent_link s b newParent =
    (let s1 = upd_block s b (\<lambda>blk. blk\<lparr>parentBlock_p := newParent\<rparr>)
     in case newParent of
          Some np \<Rightarrow> Ok (upd_block s1 np (\<lambda>blk. blk\<lparr>childBlocks_p := childBlocks_p blk @ [b]\<rparr>))
        | None \<Rightarrow>
            (if workspace (blocks s1 b) = None
             then Fail (TypeError ''Cannot read property addTopBlock of null'') s1
             else Ok (addTopBlock s1 b)))"

definition setParent :: "state \<Rightarrow> block_id \<Rightarrow> block_id option \<Rightarrow> outcome" where
  "setParent s b newParent =
    (if newParent = parentBlock_p (blocks s b) then Ok s
     else case parentBlock_p (blocks s b) of
       Some p \<Rightarrow>
         (let s1 = upd_block s p (\<lambda>blk. blk\<lparr>childBlocks_p := remove1 b (childBlocks_p blk)\<rparr>)
          in if connectedOpt s1 (previousConnection (blocks s1 b))
             then Fail (Thrown ''Still connected to previous block.'') s1
             else if connectedOpt s1 (outputConnection (blocks s1 b))
             then Fail (Thrown ''Still connected to parent block.'') s1
             else setParent_link (upd_block s1 b (\<lambda>blk. blk\<lparr>parentBlock_p := None\<rparr>)) b newParent)
     | None \<Rightarrow>
         (if workspace (blocks s b) = None
          then Fail (TypeError ''Cannot read property removeTopBlock of null'') s
          else setParent_link (removeTopBlock s b) b newParent))"

subsection \<open>Connection\<close>

text \<open>
  Modelled from the spec: \<open>Blockly.Connection\<close> is not in the source. From the spec's
  Connection Model: a connection has an owning block, a kind, at most one nominal check
  (\<open>None\<close> = unconstrained) and at most one target; \<open>canConnect\<close> holds only if the kinds
  are complementary, neither side has a target other than the partner, and the nominal
  checks intersect or either is unconstrained; \<open>connect\<close> performs the link only if
  \<open>canConnect\<close> holds (anything else is a structural-contract violation, a fatal
  assertion), makes the owner of the Value-Input/Next side the parent of the owner of
  the Output/Previous side, and unregisters both connections; \<open>disconnect\<close> is its
  inverse and leaves both connections un-targeted and re-registered; \<open>dispose\<close> fails
  loudly if still connected, and unregisters.

  The spec's fourth condition of \<open>canConnect\<close> (unifiable type expressions when both
  sides carry one) does not arise here: the operations of this section connect only a
  Next to a Previous connection, and the source sets type expressions only on output
  and value-input connections.
\<close>

definition targetBlock :: "state \<Rightarrow> conn_id \<Rightarrow> block_id option" where
  "targetBlock s c = (case targetConnection (conns s c) of
      None \<Rightarrow> None
    | Some d \<Rightarrow> Some (sourceBlock_p (conns s d)))"

definition checkType_p :: "state \<Rightarrow> conn_id \<Rightarrow> conn_id \<Rightarrow> bool" where
  "checkType_p s c d = (case (check_p (conns s c), check_p (conns s d)) of
      (Some xs, Some ys) \<Rightarrow> list_ex (\<lambda>x. x \<in> set ys) xs
    | _ \<Rightarrow> True)"

definition complementary :: "conn_type \<Rightarrow> conn_type \<Rightarrow> bool" where
  "complementary a b =
    (a = OUTPUT_VALUE \<and> b = INPUT_VALUE \<or> a = INPUT_VALUE \<and> b = OUTPUT_VALUE
     \<or> a = PREVIOUS_STATEMENT \<and> b = NEXT_STATEMENT \<or> a = NEXT_STATEMENT \<and> b = PREVIOUS_STATEMENT)"

definition canConnect :: "state \<Rightarrow> conn_id \<Rightarrow> conn_id \<Rightarrow> bool" where
  "canConnect s c d =
    (complementary (ctype (conns s c)) (ctype (conns s d))
     \<and> targetConnection (conns s c) \<in> {None, Some d}
     \<and> targetConnection (conns s d) \<in> {None, Some c}
     \<and> checkType_p s c d)"

text \<open>The Output/Previous side of a pair is the plugged-in (child) side.\<close>

definition isChildSide :: "state \<Rightarrow> conn_id \<Rightarrow> bool" where
  "isChildSide s c = (ctype (conns s c) = OUTPUT_VALUE \<or> ctype (conns s c) = PREVIOUS_STATEMENT)"

definition connect :: "state \<Rightarrow> conn_id \<Rightarrow> conn_id \<Rightarrow> outcome" where
  "connect s c d =
    (if \<not> canConnect s c d then Fail (AssertionError ''Connection check failed.'') s
     else
       let s1 = upd_conn s c (\<lambda>k. k\<lparr>targetConnection := Some d, registered := False\<rparr>);
           s2 = upd_conn s1 d (\<lambda>k. k\<lparr>targetConnection := Some c, registered := False\<rparr>);
           child = (if isChildSide s c then c else d);
           parent = (if isChildSide s c then d else c)
       in setParent s2 (sourceBlock_p (conns s2 child)) (Some (sourceBlock_p (conns s2 parent))))"

definition disconnect :: "state \<Rightarrow> conn_id \<Rightarrow> outcome" where
  "disconnect s c =
    (case targetConnection (conns s c) of
       None \<Rightarrow> Fail (AssertionError ''Source connection not connected.'') s
     | Some d \<Rightarrow>
         let s1 = upd_conn s d (\<lambda>k. k\<lparr>targetConnection := None, registered := True\<rparr>);
             s2 = upd_conn s1 c (\<lambda>k. k\<lparr>targetConnection := None, registered := True\<rparr>);
             child = (if isChildSide s c then c else d)
         in setParent s2 (sourceBlock_p (conns s2 child)) None)"

definition connection_dispose :: "state \<Rightarrow> conn_id \<Rightarrow> outcome" where
  "connection_dispose s c =
    (if isConnected s c then Fail (Thrown ''Disconnect connection before disposing of it.'') s
     else Ok (upd_conn s c (\<lambda>k. k\<lparr>registered := False\<rparr>)))"

subsection \<open>Input and bound-variable value\<close>

text \<open>
  Modelled from the spec: \<open>Blockly.Input\<close> and \<open>Blockly.BoundVariableValue\<close> are not in
  the source. An Input "carries an ordered sequence of Fields and optionally one
  Connection"; disposing it disposes those. A Value is disposed with its declaring
  block; what that does to the References pointing to it is outside this section.
\<close>

definition input_dispose :: "state \<Rightarrow> input \<Rightarrow> outcome" where
  "input_dispose s i =
    (let s1 = s\<lparr>disposedFields := disposedFields s \<union> set (fieldRow i)\<rparr>
     in case iconnection i of None \<Rightarrow> Ok s1 | Some c \<Rightarrow> connection_dispose s1 c)"

definition value_dispose :: "state \<Rightarrow> value_id \<Rightarrow> state" where
  "value_dispose s v = s\<lparr>disposedValues := insert v (disposedValues s)\<rparr>"

subsection \<open>Block.unplug and Block.dispose\<close>

definition getNextBlock :: "state \<Rightarrow> block_id \<Rightarrow> block_id option" where
  "getNextBlock s b = (case nextConnection (blocks s b) of
      None \<Rightarrow> None
    | Some c \<Rightarrow> targetBlock s c)"

definition getConnections_p :: "state \<Rightarrow> block_id \<Rightarrow> conn_id list" where
  "getConnections_p s b =
     (case outputConnection (blocks s b) of None \<Rightarrow> [] | Some c \<Rightarrow> [c])
     @ (case previousConnection (blocks s b) of None \<Rightarrow> [] | Some c \<Rightarrow> [c])
     @ (case nextConnection (blocks s b) of None \<Rightarrow> [] | Some c \<Rightarrow> [c])
     @ concat (map (\<lambda>i. case iconnection i of None \<Rightarrow> [] | Some c \<Rightarrow> [c]) (inputList (blocks s b)))"

text \<open>
  The healing branch of \<open>unplug\<close>: \<open>nextTarget\<close> is read from \<open>this.nextConnection\<close>, which
  exists because \<open>nextBlock\<close> does.
\<close>

definition unplug_heal :: "state \<Rightarrow> block_id \<Rightarrow> conn_id option \<Rightarrow> outcome" where
  "unplug_heal s b previousTarget =
    (case Option.bind (nextConnection (blocks s b)) (\<lambda>n. targetConnection (conns s n)) of
       None \<Rightarrow> Fail (TypeError ''Cannot read property disconnect of null'') s
     | Some nextTarget \<Rightarrow>
         andThen (disconnect s nextTarget) (\<lambda>s1.
           case previousTarget of
             None \<Rightarrow> Ok s1
           | Some pt \<Rightarrow> if checkType_p s1 pt nextTarget then connect s1 pt nextTarget else Ok s1))"

definition unplug :: "state \<Rightarrow> block_id \<Rightarrow> bool \<Rightarrow> outcome" where
  "unplug s b opt_healStack =
    (case outputConnection (blocks s b) of
       Some oc \<Rightarrow> if isConnected s oc then disconnect s oc else Ok s
     | None \<Rightarrow>
        (case previousConnection (blocks s b) of
           None \<Rightarrow> Ok s
         | Some pc \<Rightarrow>
             (let previousTarget = targetConnection (conns s pc)
              in andThen (if isConnected s pc then disconnect s pc else Ok s) (\<lambda>s1.
                   if opt_healStack \<and> getNextBlock s1 b \<noteq> None
                   then unplug_heal s1 b previousTarget
                   else Ok s1))))"

text \<open>The steps of \<open>dispose\<close> after the children, each a loop of the source.\<close>

fun dispose_inputs :: "state \<Rightarrow> input list \<Rightarrow> outcome" where
  "dispose_inputs s [] = Ok s"
| "dispose_inputs s (i # rest) = andThen (input_dispose s i) (\<lambda>s1. dispose_inputs s1 rest)"

fun dispose_connections :: "state \<Rightarrow> conn_id list \<Rightarrow> outcome" where
  "dispose_connections s [] = Ok s"
| "dispose_connections s (c # rest) =
     andThen (if isConnected s c then disconnect s c else Ok s) (\<lambda>s1.
       andThen (connection_dispose s1 c) (\<lambda>s2. dispose_connections s2 rest))"

text \<open>
  \<open>for (var i = 0, name; name = fieldNames[i]; i++)\<close> stops at the first falsy name, the
  empty string. \<open>typedValue\<close> lists the entries in the order of \<open>Object.keys\<close>.
\<close>

definition dispose_values :: "state \<Rightarrow> block_id \<Rightarrow> state" where
  "dispose_values s b =
     fold (\<lambda>(n, v) s1. value_dispose s1 v)
       (takeWhile (\<lambda>(n, v). n \<noteq> []) (typedValue (blocks s b))) s"

definition dispose_self :: "state \<Rightarrow> block_id \<Rightarrow> outcome" where
  "dispose_self s b =
     andThen (dispose_inputs s (inputList (blocks s b))) (\<lambda>s1.
       let s2 = upd_block s1 b (\<lambda>blk. blk\<lparr>inputList := []\<rparr>)
       in andThen (dispose_connections s2 (getConnections_p s2 b)) (\<lambda>s3.
            Ok (dispose_values s3 b)))"

text \<open>Removal from the workspace: top-block list, block database, and the block's own link.\<close>

definition leave_workspace :: "state \<Rightarrow> block_id \<Rightarrow> state" where
  "leave_workspace s b =
     (if workspace (blocks s b) = None then s
      else upd_block ((removeTopBlock s b)\<lparr>blockDB := blockDB s - {b}\<rparr>) b
             (\<lambda>blk. blk\<lparr>workspace := None\<rparr>))"

text \<open>
  \<open>Blockly.Block.prototype.dispose\<close>. The recursion on the children is on the object
  graph, so it takes fuel: \<open>OutOfFuel\<close> is the outcome of a run that needs deeper
  recursion than the fuel allows. The loop over the children runs from the last index
  down and reads \<open>this.childBlocks_[i]\<close> afresh at each step; past the end of the array
  that is \<open>undefined\<close>, and the call on it a \<open>TypeError\<close>.
\<close>

fun dispose :: "nat \<Rightarrow> state \<Rightarrow> block_id \<Rightarrow> bool \<Rightarrow> outcome"
  and dispose_children :: "nat \<Rightarrow> state \<Rightarrow> block_id \<Rightarrow> nat \<Rightarrow> outcome" where
  "dispose fuel s b healStack =
    (if workspace (blocks s b) = None then Ok s
     else case fuel of
       0 \<Rightarrow> OutOfFuel
     | Suc n \<Rightarrow>
         andThen (unplug s b healStack) (\<lambda>s1.
           let s2 = leave_workspace s1 b
           in andThen (dispose_children n s2 b (length (childBlocks_p (blocks s2 b))))
                (\<lambda>s3. dispose_self s3 b)))"
| "dispose_children n s b 0 = Ok s"
| "dispose_children n s b (Suc i) =
    (if i < length (childBlocks_p (blocks s b))
     then andThen (dispose n s (childBlocks_p (blocks s b) ! i) False)
            (\<lambda>s1. dispose_children n s1 b i)
     else Fail (TypeError ''Cannot read property dispose of undefined'') s)"

subsection \<open>A three-block statement stack\<close>

text \<open>
  Blocks 1, 2, 3 (A, B, C from top to bottom), each with a previous and a next
  connection: A's next (10) is plugged into B's previous (20), B's next (21) into C's
  previous (30). Every other identity is a disposed block without connections.
\<close>

definition no_block :: block where
  "no_block = \<lparr>workspace = None, outputConnection = None, previousConnection = None,
     nextConnection = None, inputList = [], typedValue = [], parentBlock_p = None,
     childBlocks_p = []\<rparr>"

definition stmt_block :: "conn_id \<Rightarrow> conn_id \<Rightarrow> block_id option \<Rightarrow> block_id list \<Rightarrow> block" where
  "stmt_block p n par ch = \<lparr>workspace = Some (), outputConnection = None,
     previousConnection = Some p, nextConnection = Some n, inputList = [], typedValue = [],
     parentBlock_p = par, childBlocks_p = ch\<rparr>"

definition plain_connection :: "block_id \<Rightarrow> conn_type \<Rightarrow> conn_id option \<Rightarrow> connection" where
  "plain_connection b t tgt = \<lparr>sourceBlock_p = b, ctype = t, check_p = None, targetConnection = tgt,
     registered = (tgt = None)\<rparr>"

definition stack3 :: state where
  "stack3 = \<lparr>
     blocks = (\<lambda>_. no_block)
       (1 := stmt_block 11 10 None [2],
        2 := stmt_block 20 21 (Some 1) [3],
        3 := stmt_block 30 31 (Some 2) []),
     conns = (\<lambda>_. plain_connection 0 INPUT_VALUE None)
       (11 := plain_connection 1 PREVIOUS_STATEMENT None,
        10 := plain_connection 1 NEXT_STATEMENT (Some 20),
        20 := plain_connection 2 PREVIOUS_STATEMENT (Some 10),
        21 := plain_connection 2 NEXT_STATEMENT (Some 30),
        30 := plain_connection 3 PREVIOUS_STATEMENT (Some 21),
        31 := plain_connection 3 NEXT_STATEMENT None),
     topBlocks = [1],
     blockDB = {1, 2, 3},
     disposedFields = {},
     disposedValues = {}\<rparr>"

text \<open>
  The same blocks while A's next is being connected to B's previous: the two
  connections already target each other, and B, still without a parent, is about to
  get its parent set.
\<close>

definition stack3_linking :: state where
  "stack3_linking = \<lparr>
     blocks = (\<lambda>_. no_block)
       (1 := stmt_block 11 10 None [],
        2 := stmt_block 20 21 None [3],
        3 := stmt_block 30 31 (Some 2) []),
     conns = conns stack3,
     topBlocks = [1, 2],
     blockDB = {1, 2, 3},
     disposedFields = {},
     disposedValues = {}\<rparr>"

section \<open>Scope resolution\<close>

text \<open>
  \<open>resolveReference\<close> reads the block graph and writes only the bound values of
  references. The subtree it walks is taken as a tree of block snapshots (a block with
  the list of its \<open>childBlocks_\<close>), the chain of \<open>parentBlock_\<close> links above a block as a
  block with an optional parent, and the connections as the map of the previous
  section. The bound variables (values and references) are objects in a store.
\<close>

type_synonym var_id = nat

record bound_variable =
  isReference :: bool
  variableName :: string
  boundValue :: "var_id option"

type_synonym env = "string \<rightharpoonup> var_id"

datatype references_variables =
  FIELD_VARIABLE_NONE | FIELD_VARIABLE_DEFAULT | FIELD_VARIABLE_BINDING

record rfield =
  rf_name :: string
  rf_referencesVariables :: references_variables
  rf_variable :: "var_id option"

record rinput =
  ri_name :: string
  ri_fieldRow :: "rfield list"
  ri_connection :: "conn_id option"

text \<open>
  \<open>rb_type\<close> is the block type when it is one of the typed kinds of this file; the
  prototype's functions are mixed into the block, so the type decides whether the block
  has a \<open>getVisibleVariables\<close>.
\<close>

record rblock =
  rb_id :: block_id
  rb_type :: "kind option"
  rb_outputConnection :: "conn_id option"
  rb_inputList :: "rinput list"
  rb_typedValue :: "(string \<times> var_id) list"

datatype tree = Node rblock "tree list"

datatype pblock = PBlock rblock "pblock option"

record graph =
  g_conns :: "conn_id \<Rightarrow> connection"
  g_blocks :: "block_id \<Rightarrow> pblock"

text \<open>
  The state that scope resolution can change: the bound variables. \<open>mutations\<close> records
  the calls of \<open>removeBoundValue\<close> and \<open>setBoundValue\<close>, and \<open>visits\<close> the calls of
  \<open>resolveReferenceWithEnv_\<close> (block and environment), in order.
\<close>

datatype mutation = RemoveBoundValue var_id | SetBoundValue var_id var_id

record rstate =
  variables :: "var_id \<Rightarrow> bound_variable"
  mutations :: "mutation list"
  visits :: "(rblock \<times> env) list"

text \<open>
  Modelled from the spec: the bound-variable classes are not in the source. "A
  Reference holds an unowned link to the Value it currently resolves to (or none, if
  unresolved)": \<open>removeBoundValue\<close> clears the link, \<open>setBoundValue\<close> sets it.
\<close>

definition removeBoundValue :: "rstate \<Rightarrow> var_id \<Rightarrow> rstate" where
  "removeBoundValue s v =
     s\<lparr>variables := (variables s)(v := (variables s v)\<lparr>boundValue := None\<rparr>),
       mutations := mutations s @ [RemoveBoundValue v]\<rparr>"

definition setBoundValue :: "rstate \<Rightarrow> var_id \<Rightarrow> var_id \<Rightarrow> rstate" where
  "setBoundValue s v val =
     s\<lparr>variables := (variables s)(v := (variables s v)\<lparr>boundValue := Some val\<rparr>),
       mutations := mutations s @ [SetBoundValue v val]\<rparr>"

text \<open>\<open>Blockly.Block.prototype.getBoundVariables\<close>.\<close>

definition getBoundVariables :: "rblock \<Rightarrow> var_id list" where
  "getBoundVariables b =
     concat (map (\<lambda>input. concat (map (\<lambda>field.
         if rf_referencesVariables field = FIELD_VARIABLE_BINDING
         then (case rf_variable field of None \<Rightarrow> [] | Some variable \<Rightarrow> [variable])
         else [])
       (ri_fieldRow input))) (rb_inputList b))"

text \<open>\<open>Blockly.Block.prototype.getInput\<close>.\<close>

fun getInput :: "rinput list \<Rightarrow> string \<Rightarrow> rinput option" where
  "getInput [] n = None"
| "getInput (input # rest) n = (if ri_name input = n then Some input else getInput rest n)"

text \<open>
  The loop of \<open>resolveReferenceWithEnv_\<close> over the bound variables of the block, with the
  flag \<open>allBound\<close>; the result is the new state and the returned boolean.
\<close>

fun resolveVariables :: "rstate \<Rightarrow> env \<Rightarrow> bool \<Rightarrow> var_id list \<Rightarrow> bool \<Rightarrow> rstate \<times> bool" where
  "resolveVariables s env opt_bind [] allBound = (s, if opt_bind then allBound else True)"
| "resolveVariables s env opt_bind (variable # rest) allBound =
    (let value = env (variableName (variables s variable))
     in if isReference (variables s variable) then
          (if opt_bind then
             (let s1 = removeBoundValue s variable
              in case value of
                   Some val \<Rightarrow> resolveVariables (setBoundValue s1 variable val) env opt_bind rest allBound
                 | None \<Rightarrow> resolveVariables s1 env opt_bind rest False)
           else if value = None then (s, False)
           else resolveVariables s env opt_bind rest allBound)
        else resolveVariables s env opt_bind rest allBound)"

definition resolveReferenceWithEnv_p :: "rstate \<Rightarrow> rblock \<Rightarrow> env \<Rightarrow> bool \<Rightarrow> rstate \<times> bool" where
  "resolveReferenceWithEnv_p s b env opt_bind =
     resolveVariables (s\<lparr>visits := visits s @ [(b, env)]\<rparr>) env opt_bind
       (getBoundVariables b) True"

text \<open>
  \<open>getVisibleVariables\<close> of \<open>lambda_typed\<close> (body input \<open>RETURN\<close>) and of \<open>let_typed\<close> (input
  \<open>EXP2\<close>); the two bodies differ in the input name only. \<open>None\<close>: the block has no such
  function.
\<close>

definition scopeVariables :: "rstate \<Rightarrow> rblock \<Rightarrow> string \<Rightarrow> conn_id \<Rightarrow> error + env" where
  "scopeVariables s b inputName conn =
    (case getInput (rb_inputList b) inputName of
       None \<Rightarrow> Inl (TypeError ''Cannot read property connection of null'')
     | Some input \<Rightarrow>
         if ri_connection input = Some conn then
           (case map_of (rb_typedValue b) ''VAR'' of
              None \<Rightarrow> Inl (TypeError ''Cannot read property getVariableName of undefined'')
            | Some variable \<Rightarrow> Inr [variableName (variables s variable) \<mapsto> variable])
         else Inr Map.empty)"

definition getVisibleVariables :: "rstate \<Rightarrow> rblock \<Rightarrow> conn_id \<Rightarrow> (error + env) option" where
  "getVisibleVariables s b conn =
    (if rb_type b = Some lambda_typed then Some (scopeVariables s b ''RETURN'' conn)
     else if rb_type b = Some let_typed then Some (scopeVariables s b ''EXP2'' conn)
     else None)"

text \<open>
  \<open>Blockly.Block.prototype.allVisibleVariables\<close> on a block with its chain of parents.
  The connection arguments are nullable as in the source, where \<open>conn.getSourceBlock()\<close>
  and \<open>this.outputConnection.targetConnection\<close> are reads through them. \<open>Object.assign\<close>
  lets the second map win.
\<close>

fun allVisibleVariables :: "graph \<Rightarrow> rstate \<Rightarrow> pblock \<Rightarrow> conn_id option \<Rightarrow> bool \<Rightarrow> error + env" where
  "allVisibleVariables g s (PBlock this parentBlock) None opt_bubble =
     Inl (TypeError ''Cannot read property getSourceBlock of null'')"
| "allVisibleVariables g s (PBlock this parentBlock) (Some conn) opt_bubble =
    (if sourceBlock_p (g_conns g conn) = rb_id this then
       (case (case (opt_bubble, parentBlock) of
                (True, Some parent) \<Rightarrow>
                  (case rb_outputConnection this of
                     None \<Rightarrow> Inl (TypeError ''Cannot read property targetConnection of null'')
                   | Some oc \<Rightarrow>
                       allVisibleVariables g s parent (targetConnection (g_conns g oc)) True)
              | _ \<Rightarrow> Inr Map.empty) of
          Inl e \<Rightarrow> Inl e
        | Inr env \<Rightarrow>
            (case getVisibleVariables s this conn of
               None \<Rightarrow> Inr env
             | Some (Inl e) \<Rightarrow> Inl e
             | Some (Inr scopeVars) \<Rightarrow> Inr (env ++ scopeVars)))
     else Inr Map.empty)"

text \<open>
  The inner loop of \<open>resolveReference\<close>: the queue entries for the children of \<open>block\<close>.
  The call \<open>block.allVisibleVariables(targetConn, false)\<close> does not look at the parent of
  \<open>block\<close>, so the block is passed without one.
\<close>

fun childEntries :: "graph \<Rightarrow> rstate \<Rightarrow> rblock \<Rightarrow> env \<Rightarrow> tree list \<Rightarrow> error + (tree \<times> env) list" where
  "childEntries g s block envOfParent [] = Inr []"
| "childEntries g s block envOfParent (Node child grandchildren # rest) =
    (let targetConn = (case rb_outputConnection child of
                         None \<Rightarrow> None
                       | Some outputConn \<Rightarrow> targetConnection (g_conns g outputConn))
     in case allVisibleVariables g s (PBlock block None) targetConn False of
          Inl e \<Rightarrow> Inl e
        | Inr additionalEnv \<Rightarrow>
            (case childEntries g s block envOfParent rest of
               Inl e \<Rightarrow> Inl e
             | Inr entries \<Rightarrow>
                 Inr ((Node child grandchildren, envOfParent ++ additionalEnv) # entries)))"

fun tree_size :: "tree \<Rightarrow> nat" where
  "tree_size (Node b children) = Suc (sum_list (map tree_size children))"

lemma childEntries_trees:
  "childEntries g s block env children = Inr entries \<Longrightarrow> map fst entries = children"
proof (induction children arbitrary: entries)
  case Nil
  then show ?case by simp
next
  case (Cons c cs)
  then show ?case
    by (cases c) (auto simp: Let_def split: sum.splits)
qed

lemma childEntries_size:
  assumes "childEntries g s block env children = Inr entries"
  shows "sum_list (map (tree_size \<circ> fst) entries) = sum_list (map tree_size children)"
proof -
  from assms have "map fst entries = children"
    by (rule childEntries_trees)
  then show ?thesis
    by (metis map_map)
qed

text \<open>
  The \<open>while\<close> loop of \<open>resolveReference\<close> over \<open>bfsStack\<close> (\<open>shift\<close> takes the head, \<open>push\<close>
  appends). The outcome is the state together with the returned boolean or the error
  thrown.
\<close>

function resolveLoop :: "graph \<Rightarrow> bool \<Rightarrow> (tree \<times> env) list \<Rightarrow> rstate \<Rightarrow> bool \<Rightarrow> rstate \<times> (error + bool)" where
  "resolveLoop g opt_bind [] s allSuccess = (s, Inr allSuccess)"
| "resolveLoop g opt_bind ((Node block children, envOfParent) # bfsStack) s allSuccess =
    (case resolveReferenceWithEnv_p s block envOfParent opt_bind of
       (s1, success) \<Rightarrow>
         if \<not> success \<and> \<not> opt_bind then (s1, Inr False)
         else (case childEntries g s1 block envOfParent children of
                 Inl e \<Rightarrow> (s1, Inl e)
               | Inr entries \<Rightarrow>
                   resolveLoop g opt_bind (bfsStack @ entries) s1 (allSuccess \<and> success)))"
  by pat_completeness auto
termination
  by (relation "measure (\<lambda>(g, opt_bind, bfsStack, s, allSuccess).
          sum_list (map (tree_size \<circ> fst) bfsStack))")
    (auto dest!: childEntries_size)

text \<open>
  \<open>Blockly.Block.prototype.resolveReference\<close>: first the environment at
  \<open>parentConnection\<close>, then the loop from this block.
\<close>

definition parentEnv :: "graph \<Rightarrow> rstate \<Rightarrow> conn_id option \<Rightarrow> error + env" where
  "parentEnv g s parentConnection =
    (case parentConnection of
       Some pc \<Rightarrow>
         allVisibleVariables g s (g_blocks g (sourceBlock_p (g_conns g pc))) (Some pc) True
     | None \<Rightarrow> Inr Map.empty)"

definition resolveReference :: "graph \<Rightarrow> rstate \<Rightarrow> tree \<Rightarrow> conn_id option \<Rightarrow> bool \<Rightarrow> rstate \<times> (error + bool)" where
  "resolveReference g s this parentConnection opt_bind =
    (case parentEnv g s parentConnection of
       Inl e \<Rightarrow> (s, Inl e)
     | Inr env \<Rightarrow> resolveLoop g opt_bind [(this, env)] s True)"

text \<open>
  Every reference of the block finds a value under its name in the environment.
\<close>

definition resolvable :: "rstate \<Rightarrow> rblock \<times> env \<Rightarrow> bool" where
  "resolvable s e = (case e of (b, env) \<Rightarrow>
     list_all (\<lambda>v. isReference (variables s v) \<longrightarrow> env (variableName (variables s v)) \<noteq> None)
       (getBoundVariables b))"

text \<open>
  Among the visited blocks only the last can fail to resolve, and the result is \<open>false\<close>
  exactly for that reason.
\<close>

definition stops_at_first_failure :: "rstate \<Rightarrow> (rblock \<times> env) list \<Rightarrow> error + bool \<Rightarrow> bool" where
  "stops_at_first_failure s new r =
     ((\<forall>i < length new. \<not> resolvable s (new ! i) \<longrightarrow> Suc i = length new \<and> r = Inr False)
      \<and> (r = Inr False \<longrightarrow> new \<noteq> [] \<and> \<not> resolvable s (last new)))"

subsection \<open>The blocks and bound variables of a subtree\<close>

fun tree_blocks :: "tree \<Rightarrow> rblock list" where
  "tree_blocks (Node b children) = b # concat (map tree_blocks children)"

definition tree_variables :: "tree \<Rightarrow> var_id list" where
  "tree_variables t = concat (map getBoundVariables (tree_blocks t))"

text \<open>
  A block whose scope hook, if it has one, finds its body input and its declared value,
  as the initialisers of \<open>lambda_typed\<close> and \<open>let_typed\<close> set them up.
\<close>

definition hooks_ok :: "rblock \<Rightarrow> bool" where
  "hooks_ok b =
    ((rb_type b = Some lambda_typed \<longrightarrow>
        getInput (rb_inputList b) ''RETURN'' \<noteq> None \<and> map_of (rb_typedValue b) ''VAR'' \<noteq> None)
     \<and> (rb_type b = Some let_typed \<longrightarrow>
        getInput (rb_inputList b) ''EXP2'' \<noteq> None \<and> map_of (rb_typedValue b) ''VAR'' \<noteq> None))"

text \<open>
  A subtree in which every child block is plugged into something through its output
  connection.
\<close>

fun plugged :: "graph \<Rightarrow> tree \<Rightarrow> bool" where
  "plugged g (Node b children) =
    (hooks_ok b \<and>
     list_all (\<lambda>c. (case c of Node child grandchildren \<Rightarrow>
                      (case rb_outputConnection child of
                         None \<Rightarrow> False
                       | Some oc \<Rightarrow> targetConnection (g_conns g oc) \<noteq> None))
                 \<and> plugged g c) children)"

subsection \<open>Notions for the binding traversal\<close>

text \<open>A reference is resolvable in an environment that has a value under its name.\<close>

definition ref_ok :: "rstate \<Rightarrow> env \<Rightarrow> var_id \<Rightarrow> bool" where
  "ref_ok s env v = (isReference (variables s v) \<longrightarrow> env (variableName (variables s v)) \<noteq> None)"

text \<open>Two states in which every bound variable has the same kind and name.\<close>

definition same_names :: "rstate \<Rightarrow> rstate \<Rightarrow> bool" where
  "same_names s s' = (\<forall>v. isReference (variables s' v) = isReference (variables s v)
      \<and> variableName (variables s' v) = variableName (variables s v))"

text \<open>The bound variables and the blocks of the subtrees waiting in the queue.\<close>

definition queue_variables :: "(tree \<times> env) list \<Rightarrow> var_id list" where
  "queue_variables q = concat (map (tree_variables \<circ> fst) q)"

definition queue_blocks :: "(tree \<times> env) list \<Rightarrow> rblock list" where
  "queue_blocks q = concat (map (tree_blocks \<circ> fst) q)"

text \<open>
  After the traversal, every reference of every visited block holds what the
  environment of the visit had under its name: the value, or nothing.
\<close>

definition bound_as_found :: "rstate \<Rightarrow> rstate \<Rightarrow> (rblock \<times> env) list \<Rightarrow> bool" where
  "bound_as_found s s' new =
     (\<forall>(b, env) \<in> set new. \<forall>v \<in> set (getBoundVariables b).
        isReference (variables s v) \<longrightarrow>
        boundValue (variables s' v) = env (variableName (variables s v)))"

subsection \<open>The expression \<open>let x = 3 in x\<close>\<close>

text \<open>
  Block 1 is the \<open>let_typed\<close> block (output 10, inputs \<open>EXP1\<close> on 11 and \<open>EXP2\<close> on 12, its
  value 100 named \<open>x\<close>), block 2 the integer (output 20, plugged into 11), block 3 the
  \<open>variables_get_typed\<close> block (output 30, plugged into 12, its reference 101 named \<open>x\<close>).
\<close>

definition let_block :: rblock where
  "let_block = \<lparr>rb_id = 1, rb_type = Some let_typed, rb_outputConnection = Some 10,
     rb_inputList =
       [\<lparr>ri_name = ''VARIABLE'',
         ri_fieldRow = [\<lparr>rf_name = ''VAR'', rf_referencesVariables = FIELD_VARIABLE_BINDING,
                         rf_variable = Some 100\<rparr>],
         ri_connection = None\<rparr>,
        \<lparr>ri_name = ''EXP1'', ri_fieldRow = [], ri_connection = Some 11\<rparr>,
        \<lparr>ri_name = ''EXP2'', ri_fieldRow = [], ri_connection = Some 12\<rparr>],
     rb_typedValue = [(''VAR'', 100)]\<rparr>"

definition int_block :: rblock where
  "int_block = \<lparr>rb_id = 2, rb_type = Some int_typed, rb_outputConnection = Some 20,
     rb_inputList =
       [\<lparr>ri_name = [],
         ri_fieldRow = [\<lparr>rf_name = ''INT'', rf_referencesVariables = FIELD_VARIABLE_NONE,
                         rf_variable = None\<rparr>],
         ri_connection = None\<rparr>],
     rb_typedValue = []\<rparr>"

definition get_block :: rblock where
  "get_block = \<lparr>rb_id = 3, rb_type = Some variables_get_typed, rb_outputConnection = Some 30,
     rb_inputList =
       [\<lparr>ri_name = [],
         ri_fieldRow = [\<lparr>rf_name = ''VAR'', rf_referencesVariables = FIELD_VARIABLE_BINDING,
                         rf_variable = Some 101\<rparr>],
         ri_connection = None\<rparr>],
     rb_typedValue = []\<rparr>"

definition let_tree :: tree where
  "let_tree = Node let_block [Node int_block [], Node get_block []]"

definition let_graph :: graph where
  "let_graph = \<lparr>
     g_conns = (\<lambda>_. plain_connection 0 INPUT_VALUE None)
       (10 := plain_connection 1 OUTPUT_VALUE None,
        11 := plain_connection 1 INPUT_VALUE (Some 20),
        12 := plain_connection 1 INPUT_VALUE (Some 30),
        20 := plain_connection 2 OUTPUT_VALUE (Some 11),
        30 := plain_connection 3 OUTPUT_VALUE (Some 12)),
     g_blocks = (\<lambda>_. PBlock let_block None)
       (2 := PBlock int_block (Some (PBlock let_block None)),
        3 := PBlock get_block (Some (PBlock let_block None)))\<rparr>"

text \<open>The reference 101 starts out bound to a value 7 that is not in scope.\<close>

definition let_state :: rstate where
  "let_state = \<lparr>
     variables = (\<lambda>_. \<lparr>isReference = False, variableName = ''x'', boundValue = None\<rparr>)
       (101 := \<lparr>isReference = True, variableName = ''x'', boundValue = Some 7\<rparr>),
     mutations = [],
     visits = []\<rparr>"

subsection \<open>A block with a statement child\<close>

text \<open>
  Block 4 has a next connection 41 into which the previous connection 50 of block 5
  is plugged; block 5 has no output connection, and a reference 101 in a field.
\<close>

definition upper_block :: rblock where
  "upper_block = \<lparr>rb_id = 4, rb_type = None, rb_outputConnection = None,
     rb_inputList = [], rb_typedValue = []\<rparr>"

definition lower_block :: rblock where
  "lower_block = \<lparr>rb_id = 5, rb_type = None, rb_outputConnection = None,
     rb_inputList =
       [\<lparr>ri_name = [],
         ri_fieldRow = [\<lparr>rf_name = ''VAR'', rf_referencesVariables = FIELD_VARIABLE_BINDING,
                         rf_variable = Some 101\<rparr>],
         ri_connection = None\<rparr>],
     rb_typedValue = []\<rparr>"

definition statement_tree :: tree where
  "statement_tree = Node upper_block [Node lower_block []]"

definition statement_graph :: graph where
  "statement_graph = \<lparr>
     g_conns = (\<lambda>_. plain_connection 0 INPUT_VALUE None)
       (41 := plain_connection 4 NEXT_STATEMENT (Some 50),
        50 := plain_connection 5 PREVIOUS_STATEMENT (Some 41)),
     g_blocks = (\<lambda>_. PBlock upper_block None)
       (5 := PBlock lower_block (Some (PBlock upper_block None)))\<rparr>"

section \<open>Properties of input reordering\<close>

lemma mset_splice_move:
  assumes "i < length xs"
  shows "mset (splice_insert p (xs ! i) (splice_remove i xs)) = mset xs"
proof -
  let ?zs = "splice_remove i xs"
  have "mset (take p ?zs) + mset (drop p ?zs) = mset ?zs"
    by (simp only: mset_append [symmetric] append_take_drop_id)
  then have "mset (splice_insert p (xs ! i) ?zs) = add_mset (xs ! i) (mset ?zs)"
    by (simp add: splice_insert_def)
  also have "\<dots> = mset (take i xs @ xs ! i # drop (Suc i) xs)"
    by (simp add: splice_remove_def)
  also have "\<dots> = mset xs"
    using assms by (simp only: id_take_nth_drop [symmetric])
  finally show ?thesis .
qed

lemma splice_remove_insert:
  "p \<le> length ys \<Longrightarrow> splice_remove p (splice_insert p x ys) = ys"
  by (simp add: splice_remove_def splice_insert_def min_def)

lemma splice_insert_nth:
  "p \<le> length ys \<Longrightarrow> splice_insert p x ys ! p = x"
  by (simp add: splice_insert_def nth_append)

lemma splice_insert_nth_Suc:
  "p < length ys \<Longrightarrow> splice_insert p x ys ! Suc p = ys ! p"
  by (simp add: splice_insert_def nth_append)

lemma splice_remove_nth:
  "j < length xs - 1 \<Longrightarrow> splice_remove i xs ! j = (if j < i then xs ! j else xs ! Suc j)"
  by (auto simp: splice_remove_def nth_append min_def)

lemma length_splice_remove:
  "i < length xs \<Longrightarrow> length (splice_remove i xs) = length xs - 1"
  by (simp add: splice_remove_def)



section \<open>Properties of clearTypes\<close>

lemma statements_map_single:
  "(\<And>x. x \<in> set xs \<Longrightarrow> f x = Inr [g x]) \<Longrightarrow> statements (map f xs) = Inr (map g xs)"
  by (induction xs) auto

lemma statements_Cons_Inr:
  "statements (Inr xs # rest) = (case statements rest of Inl e \<Rightarrow> Inl e | Inr ys \<Rightarrow> Inr (xs @ ys))"
  by simp

lemma getSocketInput_ADD:
  "x < n \<Longrightarrow> \<exists>i. getSocketInput (map (\<lambda>x. valueInput (''ADD'' @ decimal x) t) [0..<n] @ rest)
      (''ADD'' @ decimal x) = Some i \<and> input_connection i = Some (Some t)"
proof (induction n arbitrary: rest)
  case 0
  then show ?case by simp
next
  case (Suc n)
  show ?case
  proof (cases "x < n")
    case True
    from Suc.IH [OF True, of "valueInput (''ADD'' @ decimal n) t # rest"]
    show ?thesis by simp
  next
    case False
    with Suc.prems have xn: "x = n" by simp
    have "\<exists>i. getSocketInput (map (\<lambda>x. valueInput (''ADD'' @ decimal x) t) ys
             @ valueInput (''ADD'' @ decimal n) t # rest) (''ADD'' @ decimal n) = Some i
           \<and> input_connection i = Some (Some t)" for ys
      by (induction ys) (auto simp: valueInput_def)
    then show ?thesis unfolding xn by simp
  qed
qed

lemma callClearTypes_lists:
  assumes "x < n"
  shows "callClearTypes_p (init_block lists_create_with_typed A B n) (''ADD'' @ decimal x)
       = Inr [CallClearTypes (''ADD'' @ decimal x)]"
proof -
  from getSocketInput_ADD [OF assms, of "TVAR A" "[dummyInput ''RPAREN'']"]
  obtain i where "getSocketInput (map (\<lambda>x. valueInput (''ADD'' @ decimal x) (TVAR A)) [0..<n]
       @ [dummyInput ''RPAREN'']) (''ADD'' @ decimal x) = Some i"
     and "input_connection i = Some (Some (TVAR A))" by blast
  then show ?thesis
    by (simp add: callClearTypes_p_def init_block_def dummyInput_def)
qed

lemma clearTypes_lists:
  "clearTypes (init_block lists_create_with_typed A B n)
     = Inr (Clear (TVAR A) # map (\<lambda>x. CallClearTypes (''ADD'' @ decimal x)) [0..<n])"
proof -
  have "statements (map (\<lambda>x. callClearTypes_p (init_block lists_create_with_typed A B n)
           (''ADD'' @ decimal x)) [0..<n])
      = Inr (map (\<lambda>x. CallClearTypes (''ADD'' @ decimal x)) [0..<n])"
    using callClearTypes_lists [of _ n A B] by (intro statements_map_single) simp
  moreover have "itemCount_p (init_block lists_create_with_typed A B n) = n"
    and "output_typeExpr (init_block lists_create_with_typed A B n) = Some (TLIST (TVAR A))"
    and "block_kind (init_block lists_create_with_typed A B n) = lists_create_with_typed"
    by (simp_all add: init_block_def)
  ultimately show ?thesis
    by (simp add: clearTypes_def clear_call_def)
qed

lemma socket_vars_lists:
  "socket_vars (init_block lists_create_with_typed A B n) = {A}"
  by (auto simp: socket_vars_def socket_typeExprs_def init_block_def valueInput_def dummyInput_def)

lemma clears_first_lists:
  "clears_first (Clear t # map (\<lambda>x. CallClearTypes (f x)) xs)"
  by (induction xs) (auto simp: clears_first_def list_all_iff dest: set_dropWhileD)

text \<open>
  C5 (as amended). For every typed block kind with a \<open>clearTypes\<close>, on the block as its
  initialiser shapes it, \<open>clearTypes\<close> runs without failure; all its \<open>clear\<close> calls come
  before its first instruction to a child; every \<open>clear\<close> call is on a type variable of
  the block's own sockets (never on a constructor node); and for every kind other than
  \<open>pair_first_typed\<close> and \<open>pair_second_typed\<close> every type variable of the sockets is
  cleared.
\<close>

theorem clearTypes_clears_before_children:
  "has_clearTypes k \<Longrightarrow>
   \<exists>acts. clearTypes (init_block k A B n) = Inr acts
     \<and> clears_first acts
     \<and> (\<forall>t. Clear t \<in> set acts \<longrightarrow> (\<exists>v. t = TVAR v \<and> v \<in> socket_vars (init_block k A B n)))
     \<and> (k \<noteq> pair_first_typed \<and> k \<noteq> pair_second_typed \<longrightarrow>
          (\<forall>v \<in> socket_vars (init_block k A B n). Clear (TVAR v) \<in> set acts))"
proof (cases k)
  case lists_create_with_typed
  show ?thesis
    unfolding lists_create_with_typed clearTypes_lists socket_vars_lists
    using clears_first_lists by auto
qed (auto simp: has_clearTypes_def clearTypes_def init_block_def clear_call_def callClearTypes_p_def
      input_typeExpr_def valueInput_def dummyInput_def clears_first_def socket_vars_def
      socket_typeExprs_def)

text \<open>
  C5 as stated fails: the sockets of \<open>int_arithmetic_typed\<close> carry three type expressions
  (\<open>INT\<close> on the output and on both inputs), and its \<open>clearTypes\<close> calls \<open>clear\<close> on none
  of them.
\<close>

theorem clearTypes_int_arithmetic_counterexample:
  "clearTypes (init_block int_arithmetic_typed ''A'' ''B'' 0)
     = Inr [CallClearTypes ''A'', CallClearTypes ''B'']
   \<and> socket_typeExprs (init_block int_arithmetic_typed ''A'' ''B'' 0) = [TINT, TINT, TINT]"
  by (simp add: clearTypes_def init_block_def callClearTypes_p_def valueInput_def
      socket_typeExprs_def)

theorem clearTypes_clears_before_children_witness:
  "has_clearTypes let_typed
   \<and> clearTypes (init_block let_typed ''a'' ''b'' 0)
     = Inr [Clear (TVAR ''a''), Clear (TVAR ''b''), CallClearTypes ''EXP1'', CallClearTypes ''EXP2'']
   \<and> socket_vars (init_block let_typed ''a'' ''b'' 0) = {''a'', ''b''}"
  using clearTypes_clears_before_children [of let_typed "''a''" "''b''" 0]
  by (auto simp: has_clearTypes_def clearTypes_def init_block_def clear_call_def
      callClearTypes_p_def input_typeExpr_def valueInput_def dummyInput_def socket_vars_def
      socket_typeExprs_def)


section \<open>Properties of setParent and of dispose on a disposed block\<close>

lemmas heap_defs = upd_block_def upd_conn_def addTopBlock_def removeTopBlock_def isConnected_def
  connectedOpt_def setParent_link_def setParent_def targetBlock_def checkType_p_def
  complementary_def canConnect_def isChildSide_def connect_def disconnect_def
  connection_dispose_def input_dispose_def value_dispose_def getNextBlock_def
  getConnections_p_def unplug_heal_def unplug_def dispose_values_def dispose_self_def
  leave_workspace_def

lemmas example_defs = no_block_def stmt_block_def plain_connection_def stack3_def stack3_linking_def

text \<open>
  C10. \<open>dispose\<close> on a block that has already been disposed (its workspace is \<open>null\<close>)
  returns at once, without a throw, in the unchanged state, whatever the fuel and
  the \<open>healStack\<close> flag.
\<close>

theorem dispose_disposed_noop:
  "workspace (blocks s b) = None \<Longrightarrow> dispose fuel s b healStack = Ok s"
  by simp

theorem dispose_disposed_noop_witness:
  "workspace (blocks stack3 7) = None \<and> dispose 0 stack3 7 True = Ok stack3"
  using dispose_disposed_noop [of stack3 7 0 True]
  by (simp add: example_defs)

lemma connectedOpt_upd_block [simp]: "connectedOpt (upd_block s p f) co = connectedOpt s co"
  by (cases co) (simp_all add: connectedOpt_def isConnected_def upd_block_def)

lemma previousConnection_upd_childBlocks [simp]:
  "previousConnection (blocks (upd_block s p (\<lambda>blk. blk\<lparr>childBlocks_p := f blk\<rparr>)) b)
     = previousConnection (blocks s b)"
  "outputConnection (blocks (upd_block s p (\<lambda>blk. blk\<lparr>childBlocks_p := f blk\<rparr>)) b)
     = outputConnection (blocks s b)"
  "parentBlock_p (blocks (upd_block s p (\<lambda>blk. blk\<lparr>childBlocks_p := f blk\<rparr>)) b)
     = parentBlock_p (blocks s b)"
  by (simp_all add: upd_block_def)

text \<open>
  C9 (as amended). On a block that has a parent, \<open>setParent\<close> with a different new parent
  throws while the previous or the output connection is still connected. At the throw
  the block has been removed from the old parent's child list, and its parent link is
  unchanged: the reparenting is not completed.
\<close>

theorem setParent_still_connected:
  assumes "parentBlock_p (blocks s b) = Some p" and "newParent \<noteq> Some p"
    and "connectedOpt s (previousConnection (blocks s b))
       \<or> connectedOpt s (outputConnection (blocks s b))"
  shows "\<exists>msg s'. setParent s b newParent = Fail (Thrown msg) s'
     \<and> msg \<in> {''Still connected to previous block.'', ''Still connected to parent block.''}
     \<and> parentBlock_p (blocks s' b) = Some p
     \<and> childBlocks_p (blocks s' p) = remove1 b (childBlocks_p (blocks s p))"
proof -
  let ?s1 = "upd_block s p (\<lambda>blk. blk\<lparr>childBlocks_p := remove1 b (childBlocks_p blk)\<rparr>)"
  have ch: "childBlocks_p (blocks ?s1 p) = remove1 b (childBlocks_p (blocks s p))"
    by (simp add: upd_block_def)
  have par: "parentBlock_p (blocks ?s1 b) = Some p"
    using assms(1) by simp
  show ?thesis
  proof (cases "connectedOpt s (previousConnection (blocks s b))")
    case True
    then have "setParent s b newParent = Fail (Thrown ''Still connected to previous block.'') ?s1"
      using assms(1,2) by (auto simp: setParent_def Let_def)
    with ch par show ?thesis by blast
  next
    case False
    with assms(3) have "connectedOpt s (outputConnection (blocks s b))" by simp
    with False have "setParent s b newParent = Fail (Thrown ''Still connected to parent block.'') ?s1"
      using assms(1,2) by (auto simp: setParent_def Let_def)
    with ch par show ?thesis by blast
  qed
qed

theorem setParent_still_connected_witness:
  "parentBlock_p (blocks stack3 2) = Some 1 \<and> connectedOpt stack3 (previousConnection (blocks stack3 2))
   \<and> (\<exists>s'. setParent stack3 2 None = Fail (Thrown ''Still connected to previous block.'') s'
        \<and> parentBlock_p (blocks s' 2) = Some 1 \<and> childBlocks_p (blocks s' 1) = [])"
  using setParent_still_connected [of stack3 2 1 None]
  by (auto simp: example_defs heap_defs)

text \<open>
  C9 as stated fails for a block without a parent: with B's previous connection
  connected to A's next, \<open>setParent\<close> of B to A completes (this is the last step of
  connecting the two blocks) and gives the three-block stack.
\<close>

theorem setParent_no_parent_counterexample:
  "connectedOpt stack3_linking (previousConnection (blocks stack3_linking 2))
   \<and> parentBlock_p (blocks stack3_linking 2) = None
   \<and> setParent stack3_linking 2 (Some 1) = Ok stack3"
  by (simp add: example_defs heap_defs fun_upd_twist)


section \<open>Properties of scope resolution\<close>

lemmas resolver_example_defs = let_block_def int_block_def get_block_def let_tree_def
  let_graph_def let_state_def upper_block_def lower_block_def statement_tree_def
  statement_graph_def plain_connection_def



lemma resolveVariables_check:
  "resolveVariables s env False vs allBound
     = (s, list_all (\<lambda>v. isReference (variables s v) \<longrightarrow> env (variableName (variables s v)) \<noteq> None) vs)"
  by (induction vs arbitrary: allBound) (auto simp: Let_def)

lemma resolveReferenceWithEnv_check:
  "resolveReferenceWithEnv_p s b env False
     = (s\<lparr>visits := visits s @ [(b, env)]\<rparr>, resolvable s (b, env))"
  by (simp add: resolveReferenceWithEnv_p_def resolveVariables_check resolvable_def)

lemma resolvable_visits [simp]: "resolvable (s\<lparr>visits := x\<rparr>) e = resolvable s e"
  by (simp add: resolvable_def split: prod.splits)

lemma stops_Cons:
  "resolvable s e \<Longrightarrow> stops_at_first_failure s new r \<Longrightarrow> stops_at_first_failure s (e # new) r"
  unfolding stops_at_first_failure_def
  by (auto simp: nth_Cons split: nat.splits)

lemma resolveLoop_check:
  "resolveLoop g False bfsStack s True = (s', r) \<Longrightarrow>
     variables s' = variables s \<and> mutations s' = mutations s
     \<and> (\<exists>new. visits s' = visits s @ new \<and> stops_at_first_failure s new r)"
proof (induction g "False" bfsStack s "True" arbitrary: s' r rule: resolveLoop.induct)
  case (1 g s)
  then show ?case by (auto simp: stops_at_first_failure_def)
next
  case (2 g block children envOfParent bfsStack s)
  let ?s1 = "s\<lparr>visits := visits s @ [(block, envOfParent)]\<rparr>"
  show ?case
  proof (cases "resolvable s (block, envOfParent)")
    case False
    with 2(2) have "s' = ?s1" "r = Inr False"
      by (simp_all add: resolveReferenceWithEnv_check)
    with False show ?thesis
      by (auto simp: stops_at_first_failure_def)
  next
    case True
    show ?thesis
    proof (cases "childEntries g ?s1 block envOfParent children")
      case (Inl e)
      with True 2(2) have "s' = ?s1" "r = Inl e"
        by (simp_all add: resolveReferenceWithEnv_check)
      with True show ?thesis
        by (auto simp: stops_at_first_failure_def)
    next
      case (Inr entries)
      with True 2(2) have run: "resolveLoop g False (bfsStack @ entries) ?s1 True = (s', r)"
        by (simp add: resolveReferenceWithEnv_check)
      have "variables s' = variables ?s1 \<and> mutations s' = mutations ?s1
         \<and> (\<exists>new. visits s' = visits ?s1 @ new \<and> stops_at_first_failure ?s1 new r)"
        using 2(1) [of ?s1 True entries s' r] True Inr run
        by (simp add: resolveReferenceWithEnv_check)
      then obtain new where "variables s' = variables s" "mutations s' = mutations s"
        "visits s' = visits s @ (block, envOfParent) # new" "stops_at_first_failure ?s1 new r"
        by auto
      moreover have "stops_at_first_failure ?s1 new r = stops_at_first_failure s new r"
        by (simp add: stops_at_first_failure_def)
      ultimately show ?thesis
        using True stops_Cons by blast
    qed
  qed
qed




subsection \<open>Binding mode\<close>

lemma same_names_refl [simp]: "same_names s s"
  by (simp add: same_names_def)

lemma same_names_trans: "same_names s t \<Longrightarrow> same_names t u \<Longrightarrow> same_names s u"
  by (simp add: same_names_def)

lemma same_names_remove: "same_names s (removeBoundValue s v)"
  by (simp add: same_names_def removeBoundValue_def)

lemma same_names_set: "same_names s (setBoundValue s v val)"
  by (simp add: same_names_def setBoundValue_def)

lemma ref_ok_same_names: "same_names s t \<Longrightarrow> ref_ok t env v = ref_ok s env v"
  by (simp add: ref_ok_def same_names_def)

lemma resolveVariables_bind:
  assumes "distinct vs" and "resolveVariables s env True vs ab = (s', r)"
  shows "r = (ab \<and> list_all (ref_ok s env) vs)
     \<and> (\<forall>v \<in> set vs. isReference (variables s v) \<longrightarrow>
            boundValue (variables s' v) = env (variableName (variables s v)))
     \<and> (\<forall>v. v \<notin> set vs \<longrightarrow> variables s' v = variables s v)
     \<and> same_names s s' \<and> visits s' = visits s"
  using assms
proof (induction vs arbitrary: s ab)
  case Nil
  then show ?case by simp
next
  case (Cons v vs)
  let ?name = "variableName (variables s v)"
  show ?case
  proof (cases "isReference (variables s v)")
    case False
    with Cons.prems have run: "resolveVariables s env True vs ab = (s', r)"
      by (simp add: Let_def)
    from Cons.IH [OF _ run] Cons.prems(1) False show ?thesis
      by (auto simp: ref_ok_def)
  next
    case True
    let ?s1 = "removeBoundValue s v"
    show ?thesis
    proof (cases "env ?name")
      case None
      with True Cons.prems have run: "resolveVariables ?s1 env True vs False = (s', r)"
        by (simp add: Let_def)
      have sn: "same_names s ?s1" by (rule same_names_remove)
      from Cons.IH [OF _ run] Cons.prems(1)
      have ih: "r = (False \<and> list_all (ref_ok ?s1 env) vs)"
        "\<forall>u \<in> set vs. isReference (variables ?s1 u) \<longrightarrow>
            boundValue (variables s' u) = env (variableName (variables ?s1 u))"
        "\<forall>u. u \<notin> set vs \<longrightarrow> variables s' u = variables ?s1 u"
        "same_names ?s1 s'" "visits s' = visits ?s1"
        by auto
      have a: "r = (ab \<and> list_all (ref_ok s env) (v # vs))"
        using ih(1) True None by (simp add: ref_ok_def)
      have b: "\<forall>u \<in> set (v # vs). isReference (variables s u) \<longrightarrow>
            boundValue (variables s' u) = env (variableName (variables s u))"
      proof
        fix u assume u: "u \<in> set (v # vs)"
        show "isReference (variables s u) \<longrightarrow>
            boundValue (variables s' u) = env (variableName (variables s u))"
        proof (cases "u = v")
          case True
          with Cons.prems(1) have "u \<notin> set vs" by simp
          with ih(3) have "variables s' u = variables ?s1 u" by simp
          with True None show ?thesis by (simp add: removeBoundValue_def)
        next
          case False
          with u have "u \<in> set vs" by simp
          with ih(2) False show ?thesis by (simp add: removeBoundValue_def)
        qed
      qed
      have c: "\<forall>u. u \<notin> set (v # vs) \<longrightarrow> variables s' u = variables s u"
        using ih(3) by (simp add: removeBoundValue_def)
      have d: "same_names s s'" using sn ih(4) by (rule same_names_trans)
      have e: "visits s' = visits s" using ih(5) by (simp add: removeBoundValue_def)
      from a b c d e show ?thesis by blast
    next
      case (Some val)
      let ?s2 = "setBoundValue ?s1 v val"
      from Some True Cons.prems have run: "resolveVariables ?s2 env True vs ab = (s', r)"
        by (simp add: Let_def)
      have sn: "same_names s ?s2"
        using same_names_remove same_names_set by (rule same_names_trans)
      have ok: "list_all (ref_ok ?s2 env) vs = list_all (ref_ok s env) vs"
        by (simp add: ref_ok_same_names [OF sn] list_all_iff)
      from Cons.IH [OF _ run] Cons.prems(1)
      have ih: "r = (ab \<and> list_all (ref_ok ?s2 env) vs)"
        "\<forall>u \<in> set vs. isReference (variables ?s2 u) \<longrightarrow>
            boundValue (variables s' u) = env (variableName (variables ?s2 u))"
        "\<forall>u. u \<notin> set vs \<longrightarrow> variables s' u = variables ?s2 u"
        "same_names ?s2 s'" "visits s' = visits ?s2"
        by auto
      have a: "r = (ab \<and> list_all (ref_ok s env) (v # vs))"
        using ih(1) ok Some by (simp add: ref_ok_def)
      have b: "\<forall>u \<in> set (v # vs). isReference (variables s u) \<longrightarrow>
            boundValue (variables s' u) = env (variableName (variables s u))"
      proof
        fix u assume u: "u \<in> set (v # vs)"
        show "isReference (variables s u) \<longrightarrow>
            boundValue (variables s' u) = env (variableName (variables s u))"
        proof (cases "u = v")
          case True
          with Cons.prems(1) have "u \<notin> set vs" by simp
          with ih(3) have "variables s' u = variables ?s2 u" by simp
          with True Some show ?thesis by (simp add: removeBoundValue_def setBoundValue_def)
        next
          case False
          with u have "u \<in> set vs" by simp
          with ih(2) False show ?thesis by (simp add: removeBoundValue_def setBoundValue_def)
        qed
      qed
      have c: "\<forall>u. u \<notin> set (v # vs) \<longrightarrow> variables s' u = variables s u"
        using ih(3) by (simp add: removeBoundValue_def setBoundValue_def)
      have d: "same_names s s'" using sn ih(4) by (rule same_names_trans)
      have e: "visits s' = visits s"
        using ih(5) by (simp add: removeBoundValue_def setBoundValue_def)
      from a b c d e show ?thesis by blast
    qed
  qed
qed

lemma resolvable_ref_ok: "resolvable s (b, env) = list_all (ref_ok s env) (getBoundVariables b)"
  by (simp add: resolvable_def ref_ok_def list_all_iff)

lemma resolvable_same_names: "same_names s s' \<Longrightarrow> resolvable s' e = resolvable s e"
  by (cases e) (simp add: resolvable_def same_names_def)

lemma resolveReferenceWithEnv_bind:
  assumes "distinct (getBoundVariables b)"
    and "resolveReferenceWithEnv_p s b env True = (s', r)"
  shows "r = resolvable s (b, env)
     \<and> (\<forall>v \<in> set (getBoundVariables b). isReference (variables s v) \<longrightarrow>
            boundValue (variables s' v) = env (variableName (variables s v)))
     \<and> (\<forall>v. v \<notin> set (getBoundVariables b) \<longrightarrow> variables s' v = variables s v)
     \<and> same_names s s' \<and> visits s' = visits s @ [(b, env)]"
proof -
  let ?s0 = "s\<lparr>visits := visits s @ [(b, env)]\<rparr>"
  from assms(2) have run: "resolveVariables ?s0 env True (getBoundVariables b) True = (s', r)"
    by (simp add: resolveReferenceWithEnv_p_def)
  have sn: "same_names s ?s0" by (simp add: same_names_def)
  from resolveVariables_bind [OF assms(1) run] sn show ?thesis
    by (auto simp: resolvable_ref_ok ref_ok_def same_names_def list_all_iff)
qed

lemma scopeVariables_ok:
  "getInput (rb_inputList b) n \<noteq> None \<Longrightarrow> map_of (rb_typedValue b) ''VAR'' \<noteq> None \<Longrightarrow>
   \<exists>m. scopeVariables s b n c = Inr m"
  by (auto simp: scopeVariables_def)

lemma allVisibleVariables_no_bubble_ok:
  assumes "hooks_ok b"
  shows "\<exists>m. allVisibleVariables g s (PBlock b None) (Some tc) False = Inr m"
proof (cases "rb_type b = Some lambda_typed \<or> rb_type b = Some let_typed")
  case False
  then show ?thesis by (simp add: getVisibleVariables_def)
next
  case True
  then obtain n where n: "getVisibleVariables s b tc = Some (scopeVariables s b n tc)"
    "getInput (rb_inputList b) n \<noteq> None" "map_of (rb_typedValue b) ''VAR'' \<noteq> None"
    using assms by (auto simp: getVisibleVariables_def hooks_ok_def)
  from scopeVariables_ok [OF n(2,3)] obtain m where "scopeVariables s b n tc = Inr m" by blast
  with n(1) show ?thesis by simp
qed

lemma childEntries_ok:
  assumes "plugged g (Node b children)"
  shows "\<exists>entries. childEntries g s b env children = Inr entries"
proof -
  have hk: "hooks_ok b" using assms by simp
  have "list_all (\<lambda>c. case c of Node child grandchildren \<Rightarrow>
          (case rb_outputConnection child of None \<Rightarrow> False
           | Some oc \<Rightarrow> targetConnection (g_conns g oc) \<noteq> None)) cs
        \<Longrightarrow> \<exists>entries. childEntries g s b env cs = Inr entries" for cs
  proof (induction cs)
    case Nil
    then show ?case by simp
  next
    case (Cons c cs)
    obtain child gc where c: "c = Node child gc" by (cases c)
    from Cons.prems c obtain oc tc where oc: "rb_outputConnection child = Some oc"
      "targetConnection (g_conns g oc) = Some tc"
      by (auto split: option.splits)
    from allVisibleVariables_no_bubble_ok [OF hk] obtain m where
      m: "allVisibleVariables g s (PBlock b None) (Some tc) False = Inr m" by blast
    from Cons obtain entries where "childEntries g s b env cs = Inr entries" by auto
    with c oc m show ?case by simp
  qed
  moreover have "list_all (\<lambda>c. case c of Node child grandchildren \<Rightarrow>
          (case rb_outputConnection child of None \<Rightarrow> False
           | Some oc \<Rightarrow> targetConnection (g_conns g oc) \<noteq> None)) children"
    using assms by (simp add: list_all_iff)
  ultimately show ?thesis by blast
qed


lemma tree_variables_Node:
  "tree_variables (Node b cs) = getBoundVariables b @ concat (map tree_variables cs)"
proof -
  have "concat (map getBoundVariables (concat (map tree_blocks cs))) = concat (map tree_variables cs)"
    by (induction cs) (simp_all add: tree_variables_def)
  then show ?thesis by (simp add: tree_variables_def)
qed

lemma queue_variables_entries:
  "map fst entries = cs \<Longrightarrow> queue_variables entries = concat (map tree_variables cs)"
  unfolding queue_variables_def by (metis map_map)

lemma queue_blocks_entries:
  "map fst entries = cs \<Longrightarrow> queue_blocks entries = concat (map tree_blocks cs)"
  unfolding queue_blocks_def by (metis map_map)

lemma plugged_children:
  "plugged g (Node b cs) \<Longrightarrow> list_all (plugged g) cs"
  by (simp add: list_all_iff)

lemma resolveLoop_bind:
  assumes "list_all (plugged g \<circ> fst) bfsStack" and "distinct (queue_variables bfsStack)"
    and "resolveLoop g True bfsStack s allSuccess = (s', r)"
  shows "\<exists>new. visits s' = visits s @ new
     \<and> mset (map fst new) = mset (queue_blocks bfsStack)
     \<and> bound_as_found s s' new
     \<and> r = Inr (allSuccess \<and> list_all (resolvable s) new)
     \<and> (\<forall>v. v \<notin> set (queue_variables bfsStack) \<longrightarrow> variables s' v = variables s v)
     \<and> same_names s s'"
  using assms
proof (induction g "True" bfsStack s allSuccess arbitrary: s' r rule: resolveLoop.induct)
  case (1 g s allSuccess)
  then show ?case
    by (simp add: queue_blocks_def bound_as_found_def)
next
  case (2 g block children envOfParent bfsStack s allSuccess)
  obtain s1 success where step: "resolveReferenceWithEnv_p s block envOfParent True = (s1, success)"
    by (cases "resolveReferenceWithEnv_p s block envOfParent True")
  have pl: "plugged g (Node block children)" "list_all (plugged g \<circ> fst) bfsStack"
    using 2(2) by simp_all
  from childEntries_ok [OF pl(1)] obtain entries where
    entries: "childEntries g s1 block envOfParent children = Inr entries" by blast
  have fst_entries: "map fst entries = children"
    using entries by (rule childEntries_trees)
  have qv: "queue_variables ((Node block children, envOfParent) # bfsStack)
      = getBoundVariables block @ concat (map tree_variables children) @ queue_variables bfsStack"
    by (simp add: queue_variables_def tree_variables_Node)
  have qv': "queue_variables (bfsStack @ entries)
      = queue_variables bfsStack @ concat (map tree_variables children)"
    using queue_variables_entries [OF fst_entries] by (simp add: queue_variables_def)
  have dist: "distinct (getBoundVariables block)" "distinct (queue_variables (bfsStack @ entries))"
    "set (getBoundVariables block) \<inter> set (queue_variables (bfsStack @ entries)) = {}"
    using 2(3) unfolding qv qv' by auto
  from resolveReferenceWithEnv_bind [OF dist(1) step]
  have first: "success = resolvable s (block, envOfParent)"
    "\<forall>v \<in> set (getBoundVariables block). isReference (variables s v) \<longrightarrow>
        boundValue (variables s1 v) = envOfParent (variableName (variables s v))"
    "\<forall>v. v \<notin> set (getBoundVariables block) \<longrightarrow> variables s1 v = variables s v"
    "same_names s s1" "visits s1 = visits s @ [(block, envOfParent)]"
    by auto
  have run: "resolveLoop g True (bfsStack @ entries) s1 (allSuccess \<and> success) = (s', r)"
    using 2(4) step entries by simp
  have pl': "list_all (plugged g \<circ> fst) (bfsStack @ entries)"
  proof -
    have "list_all (plugged g) (map fst entries)"
      unfolding fst_entries using pl(1) by (rule plugged_children)
    then show ?thesis using pl(2) by (auto simp: list_all_iff)
  qed
  from 2(1) [OF step [symmetric] _ entries pl' dist(2) run]
  obtain new where ih: "visits s' = visits s1 @ new"
    "mset (map fst new) = mset (queue_blocks (bfsStack @ entries))"
    "bound_as_found s1 s' new"
    "r = Inr ((allSuccess \<and> success) \<and> list_all (resolvable s1) new)"
    "\<forall>v. v \<notin> set (queue_variables (bfsStack @ entries)) \<longrightarrow> variables s' v = variables s1 v"
    "same_names s1 s'"
    by auto
  let ?new = "(block, envOfParent) # new"
  have a: "visits s' = visits s @ ?new"
    using ih(1) first(5) by simp
  have b: "mset (map fst ?new) = mset (queue_blocks ((Node block children, envOfParent) # bfsStack))"
    using ih(2) queue_blocks_entries [OF fst_entries] by (simp add: queue_blocks_def)
  have c: "bound_as_found s s' ?new"
    unfolding bound_as_found_def
  proof (intro ballI, clarify)
    fix b env v
    assume mem: "(b, env) \<in> set ?new" and v: "v \<in> set (getBoundVariables b)"
      and isref: "isReference (variables s v)"
    show "boundValue (variables s' v) = env (variableName (variables s v))"
    proof (cases "(b, env) = (block, envOfParent)")
      case True
      with v dist(3) have "v \<notin> set (queue_variables (bfsStack @ entries))" by auto
      with ih(5) have "variables s' v = variables s1 v" by simp
      with first(2) True v isref show ?thesis by simp
    next
      case False
      with mem have "(b, env) \<in> set new" by auto
      moreover have "isReference (variables s1 v)" "variableName (variables s1 v) = variableName (variables s v)"
        using first(4) isref by (simp_all add: same_names_def)
      ultimately show ?thesis
        using ih(3) v unfolding bound_as_found_def by fastforce
    qed
  qed
  have d: "r = Inr (allSuccess \<and> list_all (resolvable s) ?new)"
    using ih(4) first(1) resolvable_same_names [OF first(4)] by (simp add: list_all_iff)
  have e: "\<forall>v. v \<notin> set (queue_variables ((Node block children, envOfParent) # bfsStack)) \<longrightarrow>
      variables s' v = variables s v"
    using ih(5) first(3) unfolding qv qv' by auto
  have f: "same_names s s'"
    using first(4) ih(6) by (rule same_names_trans)
  from a b c d e f show ?case by blast
qed


text \<open>
  On a subtree whose child blocks are all plugged in through their output connection,
  and whose bound variables are distinct objects, binding mode returns; it visits every
  block of the subtree once; every reference ends bound to what the environment of its
  block has under its name, or unbound; everything else is untouched; and the result is
  \<open>true\<close> exactly when every reference of the subtree ends bound.
\<close>

lemma resolveReference_bind_plugged:
  assumes "plugged g this" and "distinct (tree_variables this)"
    and "parentEnv g s parentConnection = Inr env0"
  shows "\<exists>s' new. resolveReference g s this parentConnection True
          = (s', Inr (list_all (resolvable s) new))
     \<and> visits s' = visits s @ new
     \<and> mset (map fst new) = mset (tree_blocks this)
     \<and> bound_as_found s s' new
     \<and> (\<forall>v. v \<notin> set (tree_variables this) \<longrightarrow> variables s' v = variables s v)
     \<and> (list_all (resolvable s) new \<longleftrightarrow>
          (\<forall>v \<in> set (tree_variables this). isReference (variables s v) \<longrightarrow>
             boundValue (variables s' v) \<noteq> None))"
proof -
  obtain s' r where run: "resolveLoop g True [(this, env0)] s True = (s', r)"
    by (cases "resolveLoop g True [(this, env0)] s True")
  have "list_all (plugged g \<circ> fst) [(this, env0)]" "distinct (queue_variables [(this, env0)])"
    using assms(1,2) by (simp_all add: queue_variables_def)
  from resolveLoop_bind [OF this run]
  obtain new where new: "visits s' = visits s @ new"
    "mset (map fst new) = mset (tree_blocks this)"
    "bound_as_found s s' new"
    "r = Inr (list_all (resolvable s) new)"
    "\<forall>v. v \<notin> set (tree_variables this) \<longrightarrow> variables s' v = variables s v"
    by (auto simp: queue_variables_def queue_blocks_def)
  have blocks: "set (map fst new) = set (tree_blocks this)"
    using new(2) by (metis set_mset_mset)
  have "list_all (resolvable s) new \<longleftrightarrow>
          (\<forall>v \<in> set (tree_variables this). isReference (variables s v) \<longrightarrow>
             boundValue (variables s' v) \<noteq> None)"
  proof
    assume all: "list_all (resolvable s) new"
    show "\<forall>v \<in> set (tree_variables this). isReference (variables s v) \<longrightarrow>
             boundValue (variables s' v) \<noteq> None"
    proof (intro ballI impI)
      fix v assume v: "v \<in> set (tree_variables this)" and isref: "isReference (variables s v)"
      from v obtain b where b: "b \<in> set (tree_blocks this)" "v \<in> set (getBoundVariables b)"
        by (auto simp: tree_variables_def)
      with blocks obtain env where mem: "(b, env) \<in> set new" by force
      with all have "resolvable s (b, env)" by (simp add: list_all_iff)
      with b(2) isref have "env (variableName (variables s v)) \<noteq> None"
        by (simp add: resolvable_def list_all_iff)
      moreover from new(3) mem b(2) isref
      have "boundValue (variables s' v) = env (variableName (variables s v))"
        unfolding bound_as_found_def by fastforce
      ultimately show "boundValue (variables s' v) \<noteq> None" by simp
    qed
  next
    assume bound: "\<forall>v \<in> set (tree_variables this). isReference (variables s v) \<longrightarrow>
             boundValue (variables s' v) \<noteq> None"
    show "list_all (resolvable s) new"
      unfolding list_all_iff
    proof
      fix e assume e: "e \<in> set new"
      obtain b env where be: "e = (b, env)" by (cases e)
      from e be blocks have bt: "b \<in> set (tree_blocks this)" by force
      have "isReference (variables s v) \<longrightarrow> env (variableName (variables s v)) \<noteq> None"
        if v: "v \<in> set (getBoundVariables b)" for v
      proof
        assume isref: "isReference (variables s v)"
        from v bt have "v \<in> set (tree_variables this)" by (auto simp: tree_variables_def)
        with bound isref have "boundValue (variables s' v) \<noteq> None" by simp
        moreover from new(3) e be v isref
        have "boundValue (variables s' v) = env (variableName (variables s v))"
          unfolding bound_as_found_def by fastforce
        ultimately show "env (variableName (variables s v)) \<noteq> None" by simp
      qed
      then show "resolvable s e"
        unfolding be by (simp add: resolvable_def list_all_iff)
    qed
  qed
  with new run assms(3) show ?thesis
    by (auto simp: resolveReference_def)
qed

text \<open>
  C3 fails on a block with a statement child. Block 5 is a child of block 4 and has no
  output connection, so \<open>targetConn\<close> is \<open>null\<close> and \<open>allVisibleVariables(null, false)\<close> throws
  on \<open>conn.getSourceBlock()\<close>: the traversal has visited block 4 only, and the reference
  101 of block 5 keeps the stale value 7.
\<close>

theorem resolveReference_bind_statement_child:
  "resolveReference statement_graph let_state statement_tree None True
     = (let_state\<lparr>visits := [(upper_block, Map.empty)]\<rparr>,
        Inl (TypeError ''Cannot read property getSourceBlock of null''))
   \<and> tree_blocks statement_tree = [upper_block, lower_block]
   \<and> getBoundVariables lower_block = [101]
   \<and> isReference (variables let_state 101)
   \<and> boundValue (variables let_state 101) = Some 7"
  by (simp add: resolveReference_def parentEnv_def resolveReferenceWithEnv_p_def
        getBoundVariables_def resolver_example_defs)


end
